theory Spec2Isabelle
  imports Main
begin

section \<open>Data model (main.py, the pydantic models and the JSON documents)\<close>

text \<open>
  \<open>Settings\<close>: the handlers read only the two flags; title, header and footer are display
  data that no handler inspects. \<open>Settings()\<close> has voting closed and anti-abuse on.
\<close>

record settings =
  is_voting_active :: bool
  anti_abuse_enabled :: bool

definition default_settings :: settings where
  "default_settings = \<lparr>is_voting_active = False, anti_abuse_enabled = True\<rparr>"

text \<open>
  \<open>Participant\<close> and \<open>Category\<close>. The key \<open>id\<close> of both documents is written \<open>p_id\<close> and
  \<open>c_id\<close>. \<open>max_votes\<close> is a Python \<open>int\<close>: the model accepts zero and negative values too.
  The categories table is only ever written from \<open>Category\<close> objects, so the key
  \<open>max_votes\<close> is always there and the default of \<open>category.get('max_votes', 1)\<close> is not
  taken.
\<close>

record participant =
  p_id :: string
  p_name :: string

record category =
  c_id :: string
  c_title :: string
  max_votes :: int
  participants :: "participant list"

text \<open>\<open>VoteRequest\<close>, and the stored vote, which adds the identity and the time stamp.\<close>

record vote_request =
  category_id :: string
  participant_id :: string

record vote = vote_request +
  ip_address :: string
  timestamp :: string

text \<open>
  The part of a Starlette \<open>Request\<close> that the code reads: \<open>request.headers.get\<close> and
  \<open>request.client.host\<close>.
\<close>

record request =
  headers :: "string \<rightharpoonup> string"
  client_host :: string

text \<open>
  \<open>HTTPException(status_code, detail)\<close>. The detail texts are Russian sentences; each is
  one constructor, in the order of the source: voting closed at the moment (cast), category
  not found, vote limit of the category exhausted, voting closed (reset), category_id is
  required, access denied: wrong token, error saving the data.
\<close>

datatype detail =
    VotingClosedNow
  | CategoryNotFound
  | LimitExhausted
  | VotingClosed
  | CategoryIdRequired
  | AccessDenied
  | SaveError

datatype http_error = HTTPException nat detail

text \<open>The \<open>status\<close> field of the JSON answers.\<close>

datatype status = Success | Skipped | Updated

section \<open>JsonDB\<close>

text \<open>
  One backing file per table. \<open>None\<close> is a file that is missing or does not parse:
  \<open>load\<close> then answers the default of the table. \<open>save\<close> opens the file with mode
  \<open>"w"\<close>, which empties it, and dumps the document into it. \<open>writable\<close> says whether
  the whole write goes through. When it does not, \<open>save\<close> raises the 500 error, and
  \<open>opens\<close> says how far it got: when the open itself fails the file stays as it was,
  and when the open goes through and the dump fails the file is left empty or cut short,
  a file that does not parse. \<open>accesses\<close> records every call of \<open>load\<close> and \<open>save\<close>, in
  order.
\<close>

datatype table = Settings | Categories | Votes

datatype access = Load table | Save table

record json_db =
  settings_file :: "settings option"
  categories_file :: "category list option"
  votes_file :: "vote list option"
  writable :: bool
  opens :: bool
  accesses :: "access list"

definition logged :: "access \<Rightarrow> json_db \<Rightarrow> json_db" where
  "logged a db = db\<lparr>accesses := accesses db @ [a]\<rparr>"

definition settings_of :: "json_db \<Rightarrow> settings" where
  "settings_of db = (case settings_file db of None \<Rightarrow> default_settings | Some s \<Rightarrow> s)"

definition categories_of :: "json_db \<Rightarrow> category list" where
  "categories_of db = (case categories_file db of None \<Rightarrow> [] | Some cs \<Rightarrow> cs)"

definition votes_of :: "json_db \<Rightarrow> vote list" where
  "votes_of db = (case votes_file db of None \<Rightarrow> [] | Some vs \<Rightarrow> vs)"

text \<open>\<open>db.load(table)\<close>, one function per table since the documents differ in type.\<close>

definition load_settings :: "json_db \<Rightarrow> settings \<times> json_db" where
  "load_settings db = (settings_of db, logged (Load Settings) db)"

definition load_categories :: "json_db \<Rightarrow> category list \<times> json_db" where
  "load_categories db = (categories_of db, logged (Load Categories) db)"

definition load_votes :: "json_db \<Rightarrow> vote list \<times> json_db" where
  "load_votes db = (votes_of db, logged (Load Votes) db)"

text \<open>\<open>db.save(table, data)\<close>.\<close>

definition save_settings :: "json_db \<Rightarrow> settings \<Rightarrow> (http_error + unit) \<times> json_db" where
  "save_settings db s =
     (if writable db then (Inr (), logged (Save Settings) (db\<lparr>settings_file := Some s\<rparr>))
      else (Inl (HTTPException 500 SaveError),
            logged (Save Settings) (if opens db then db\<lparr>settings_file := None\<rparr> else db)))"

definition save_categories :: "json_db \<Rightarrow> category list \<Rightarrow> (http_error + unit) \<times> json_db" where
  "save_categories db cs =
     (if writable db then (Inr (), logged (Save Categories) (db\<lparr>categories_file := Some cs\<rparr>))
      else (Inl (HTTPException 500 SaveError),
            logged (Save Categories) (if opens db then db\<lparr>categories_file := None\<rparr> else db)))"

definition save_votes :: "json_db \<Rightarrow> vote list \<Rightarrow> (http_error + unit) \<times> json_db" where
  "save_votes db vs =
     (if writable db then (Inr (), logged (Save Votes) (db\<lparr>votes_file := Some vs\<rparr>))
      else (Inl (HTTPException 500 SaveError),
            logged (Save Votes) (if opens db then db\<lparr>votes_file := None\<rparr> else db)))"

section \<open>Python strings and dictionaries\<close>

text \<open>
  \<open>s.split(sep)\<close> for a one-character separator: the fields between the separators, never
  an empty list.
\<close>

fun split_on :: "char \<Rightarrow> string \<Rightarrow> string list" where
  "split_on sep [] = [[]]"
| "split_on sep (c # cs) =
     (if c = sep then [] # split_on sep cs
      else (case split_on sep cs of [] \<Rightarrow> [[c]] | w # ws \<Rightarrow> (c # w) # ws))"

text \<open>
  \<open>str.isspace\<close> on the code points below 256 (header values are decoded as Latin-1):
  9 to 13, 28 to 32, 133 and 160. \<open>s.strip()\<close> drops them at both ends.
\<close>

definition py_isspace :: "char \<Rightarrow> bool" where
  "py_isspace c =
     (let n = (of_char c :: nat)
      in (9 \<le> n \<and> n \<le> 13) \<or> (28 \<le> n \<and> n \<le> 32) \<or> n = 133 \<or> n = 160)"

definition strip :: "string \<Rightarrow> string" where
  "strip s = rev (dropWhile py_isspace (rev (dropWhile py_isspace s)))"

text \<open>
  A \<open>dict\<close> as an association list in insertion order: \<open>d[k] = v\<close> replaces the value of
  a key that is there and appends a new key at the end; \<open>map_of\<close> reads it.
\<close>

fun dict_set :: "'k \<Rightarrow> 'v \<Rightarrow> ('k \<times> 'v) list \<Rightarrow> ('k \<times> 'v) list" where
  "dict_set k v [] = [(k, v)]"
| "dict_set k v ((k', v') # d) = (if k' = k then (k, v) # d else (k', v') # dict_set k v d)"

section \<open>Helpers\<close>

definition get_client_ip :: "request \<Rightarrow> string" where
  "get_client_ip req =
     (case headers req ''CF-Connecting-IP'' of
        Some (c # cs) \<Rightarrow> c # cs
      | _ \<Rightarrow>
        (case headers req ''X-Forwarded-For'' of
           Some (f # fs) \<Rightarrow> strip (hd (split_on CHR '','' (f # fs)))
         | _ \<Rightarrow> client_host req))"

text \<open>\<open>verify_admin\<close>; \<open>secret\<close> is \<open>SECRET_KEY\<close>, read from the environment at start.\<close>

definition verify_admin :: "string \<Rightarrow> string option \<Rightarrow> http_error + unit" where
  "verify_admin secret x_admin_token =
     (if x_admin_token \<noteq> Some secret then Inl (HTTPException 401 AccessDenied) else Inr ())"

section \<open>Public endpoints\<close>

definition get_status :: "json_db \<Rightarrow> settings \<times> json_db" where
  "get_status db = load_settings db"

definition get_categories :: "json_db \<Rightarrow> category list \<times> json_db" where
  "get_categories db = load_categories db"

text \<open>
  The body of the loop of \<open>get_my_votes\<close>. After the key was set when missing, the read
  of \<open>my_votes[cat_id]\<close> finds it: the branch \<open>None\<close> is never taken.
\<close>

definition my_votes_step :: "string \<Rightarrow> vote \<Rightarrow> (string \<times> string list) list
    \<Rightarrow> (string \<times> string list) list" where
  "my_votes_step ip v my_votes =
     (if ip_address v = ip then
        (let cat_id = category_id v;
             my_votes1 = (if map_of my_votes cat_id = None then dict_set cat_id [] my_votes
                          else my_votes)
         in (case map_of my_votes1 cat_id of
               None \<Rightarrow> my_votes1
             | Some l \<Rightarrow> dict_set cat_id (l @ [participant_id v]) my_votes1))
      else my_votes)"

definition get_my_votes :: "json_db \<Rightarrow> request \<Rightarrow> (string \<times> string list) list \<times> json_db" where
  "get_my_votes db req =
     (let ip = get_client_ip req in
      case load_votes db of (votes, db1) \<Rightarrow> (fold (my_votes_step ip) votes [], db1))"

text \<open>
  \<open>get_results\<close>. \<open>zero_counts\<close> is the dict comprehension, \<open>init_results\<close> the first loop,
  \<open>count_vote\<close> the body of the second loop.
\<close>

definition zero_counts :: "participant list \<Rightarrow> (string \<times> int) list" where
  "zero_counts ps = fold (\<lambda>p d. dict_set (p_id p) 0 d) ps []"

definition init_results :: "category list \<Rightarrow> (string \<times> (string \<times> int) list) list" where
  "init_results cats = fold (\<lambda>cat d. dict_set (c_id cat) (zero_counts (participants cat)) d) cats []"

definition count_vote :: "vote \<Rightarrow> (string \<times> (string \<times> int) list) list
    \<Rightarrow> (string \<times> (string \<times> int) list) list" where
  "count_vote v results_data =
     (let c = category_id v; p = participant_id v
      in (case map_of results_data c of
            None \<Rightarrow> results_data
          | Some inner \<Rightarrow>
            (case map_of inner p of
               None \<Rightarrow> results_data
             | Some n \<Rightarrow> dict_set c (dict_set p (n + 1) inner) results_data)))"

definition results_data :: "category list \<Rightarrow> vote list \<Rightarrow> (string \<times> (string \<times> int) list) list" where
  "results_data cats votes = fold count_vote votes (init_results cats)"

datatype results_view = Hidden | Visible "(string \<times> (string \<times> int) list) list"

definition get_results :: "json_db \<Rightarrow> results_view \<times> json_db" where
  "get_results db =
     (case load_settings db of (settings, db1) \<Rightarrow>
      case load_categories db1 of (categories, db2) \<Rightarrow>
      case load_votes db2 of (votes, db3) \<Rightarrow>
        (let rd = results_data categories votes
         in if is_voting_active settings then (Hidden, db3) else (Visible rd, db3)))"

text \<open>
  \<open>cast_vote\<close>. \<open>user_cat_votes\<close> is the list comprehension of the same name,
  \<open>find_category\<close> the \<open>next(..., None)\<close> over the categories; \<open>now\<close> is the reading of the
  clock. \<open>append_vote\<close> is the end of the function: the append to the loaded list, the save
  of the list, which may raise, and the answer.
\<close>

definition user_cat_votes :: "string \<Rightarrow> string \<Rightarrow> vote list \<Rightarrow> vote list" where
  "user_cat_votes ip cid votes = filter (\<lambda>v. ip_address v = ip \<and> category_id v = cid) votes"

definition find_category :: "category list \<Rightarrow> string \<Rightarrow> category option" where
  "find_category categories cid = List.find (\<lambda>c. c_id c = cid) categories"

definition new_vote :: "vote_request \<Rightarrow> string \<Rightarrow> string \<Rightarrow> vote" where
  "new_vote vote_req ip now =
     \<lparr>category_id = category_id vote_req, participant_id = participant_id vote_req,
      ip_address = ip, timestamp = now\<rparr>"

definition append_vote :: "json_db \<Rightarrow> vote list \<Rightarrow> vote \<Rightarrow> (http_error + status) \<times> json_db" where
  "append_vote db votes v =
     (case save_votes db (votes @ [v]) of
        (Inl e, db') \<Rightarrow> (Inl e, db')
      | (Inr _, db') \<Rightarrow> (Inr Success, db'))"

definition cast_vote :: "json_db \<Rightarrow> vote_request \<Rightarrow> request \<Rightarrow> string
    \<Rightarrow> (http_error + status) \<times> json_db" where
  "cast_vote db vote_req req now =
     (case load_settings db of (settings, db1) \<Rightarrow>
      if \<not> is_voting_active settings then (Inl (HTTPException 400 VotingClosedNow), db1)
      else
        (let ip = get_client_ip req in
         case load_votes db1 of (votes, db2) \<Rightarrow>
         if anti_abuse_enabled settings then
           (case load_categories db2 of (categories, db3) \<Rightarrow>
             (case find_category categories (category_id vote_req) of
                None \<Rightarrow> (Inl (HTTPException 404 CategoryNotFound), db3)
              | Some category \<Rightarrow>
                if int (length (user_cat_votes ip (category_id vote_req) votes)) \<ge> max_votes category
                then (Inl (HTTPException 403 LimitExhausted), db3)
                else append_vote db3 votes (new_vote vote_req ip now)))
         else append_vote db2 votes (new_vote vote_req ip now)))"

text \<open>\<open>reset_my_vote\<close>; the payload is a \<open>Dict[str, str]\<close>.\<close>

definition reset_my_vote :: "json_db \<Rightarrow> request \<Rightarrow> (string \<rightharpoonup> string)
    \<Rightarrow> (http_error + status) \<times> json_db" where
  "reset_my_vote db req payload =
     (case load_settings db of (settings, db1) \<Rightarrow>
      if \<not> is_voting_active settings then (Inl (HTTPException 400 VotingClosed), db1)
      else
        (case payload ''category_id'' of
           None \<Rightarrow> (Inl (HTTPException 400 CategoryIdRequired), db1)
         | Some [] \<Rightarrow> (Inl (HTTPException 400 CategoryIdRequired), db1)
         | Some (k # ks) \<Rightarrow>
           (let ip = get_client_ip req in
            case load_votes db1 of (votes, db2) \<Rightarrow>
              (let initial_count = length votes;
                   new_votes = filter (\<lambda>v. \<not> (ip_address v = ip \<and> category_id v = k # ks)) votes
               in if length new_votes = initial_count then (Inr Skipped, db2)
                  else (case save_votes db2 new_votes of
                          (Inl e, db3) \<Rightarrow> (Inl e, db3)
                        | (Inr _, db3) \<Rightarrow> (Inr Success, db3))))))"

section \<open>Admin endpoints\<close>

text \<open>
  A route declared with \<open>dependencies=[Depends(verify_admin)]\<close> runs \<open>verify_admin\<close> on the
  \<open>X-Admin-Token\<close> header first, and the handler only when it did not raise.
\<close>

definition depends_verify_admin :: "string \<Rightarrow> string option \<Rightarrow> (json_db \<Rightarrow> (http_error + 'a) \<times> json_db)
    \<Rightarrow> json_db \<Rightarrow> (http_error + 'a) \<times> json_db" where
  "depends_verify_admin secret x_admin_token handler db =
     (case verify_admin secret x_admin_token of
        Inl e \<Rightarrow> (Inl e, db)
      | Inr _ \<Rightarrow> handler db)"

definition get_admin_data :: "json_db \<Rightarrow> (http_error + settings \<times> category list \<times> vote list) \<times> json_db" where
  "get_admin_data db =
     (case load_settings db of (s, db1) \<Rightarrow>
      case load_categories db1 of (cs, db2) \<Rightarrow>
      case load_votes db2 of (vs, db3) \<Rightarrow> (Inr (s, cs, vs), db3))"

definition update_settings :: "settings \<Rightarrow> json_db \<Rightarrow> (http_error + status \<times> settings) \<times> json_db" where
  "update_settings s db =
     (case save_settings db s of
        (Inl e, db1) \<Rightarrow> (Inl e, db1)
      | (Inr _, db1) \<Rightarrow> (Inr (Updated, s), db1))"

definition update_categories :: "category list \<Rightarrow> json_db \<Rightarrow> (http_error + status) \<times> json_db" where
  "update_categories cs db =
     (case save_categories db cs of
        (Inl e, db1) \<Rightarrow> (Inl e, db1)
      | (Inr _, db1) \<Rightarrow> (Inr Updated, db1))"

section \<open>Sequential executions\<close>

text \<open>
  The requests that reach the store, one constructor per route. A sequential execution
  handles a list of them one after the other; \<open>handle\<close> keeps the store a request leaves
  behind and \<open>trace\<close> lists the stores an execution goes through, the first one included.
\<close>

datatype api_request =
    GetStatus
  | GetCategories
  | GetMyVotes request
  | GetResults
  | PostVote vote_request request string
  | PostVoteReset request "string \<rightharpoonup> string"
  | GetAdminData "string option"
  | PostAdminSettings "string option" settings
  | PostAdminCategories "string option" "category list"

fun handle :: "string \<Rightarrow> json_db \<Rightarrow> api_request \<Rightarrow> json_db" where
  "handle secret db GetStatus = snd (get_status db)"
| "handle secret db GetCategories = snd (get_categories db)"
| "handle secret db (GetMyVotes req) = snd (get_my_votes db req)"
| "handle secret db GetResults = snd (get_results db)"
| "handle secret db (PostVote vote_req req now) = snd (cast_vote db vote_req req now)"
| "handle secret db (PostVoteReset req payload) = snd (reset_my_vote db req payload)"
| "handle secret db (GetAdminData tok) = snd (depends_verify_admin secret tok get_admin_data db)"
| "handle secret db (PostAdminSettings tok s) =
     snd (depends_verify_admin secret tok (update_settings s) db)"
| "handle secret db (PostAdminCategories tok cs) =
     snd (depends_verify_admin secret tok (update_categories cs) db)"

fun trace :: "string \<Rightarrow> json_db \<Rightarrow> api_request list \<Rightarrow> json_db list" where
  "trace secret db [] = [db]"
| "trace secret db (r # rs) = db # trace secret (handle secret db r) rs"

section \<open>Reading the model\<close>

text \<open>
  \<open>lookup2 d c p\<close> reads \<open>d[c][p]\<close> of a nested dictionary, \<open>None\<close> when either key is
  missing.
\<close>

definition lookup2 :: "('a \<times> ('b \<times> 'c) list) list \<Rightarrow> 'a \<Rightarrow> 'b \<Rightarrow> 'c option" where
  "lookup2 d c p = (case map_of d c of None \<Rightarrow> None | Some inner \<Rightarrow> map_of inner p)"

text \<open>
  The checks of \<open>cast_vote\<close> before the append: voting is active and, under anti-abuse,
  the category is found and the caller has fewer votes in it than \<open>max_votes\<close>.
\<close>

definition accepts :: "json_db \<Rightarrow> vote_request \<Rightarrow> request \<Rightarrow> bool" where
  "accepts db vote_req req =
     (is_voting_active (settings_of db) \<and>
      (anti_abuse_enabled (settings_of db) \<longrightarrow>
         (case find_category (categories_of db) (category_id vote_req) of
            None \<Rightarrow> False
          | Some c \<Rightarrow>
              int (length (user_cat_votes (get_client_ip req) (category_id vote_req) (votes_of db)))
                < max_votes c)))"

text \<open>Whether the participant of a request is a participant of a category with the id of the request.\<close>

definition names_participant :: "category list \<Rightarrow> vote_request \<Rightarrow> bool" where
  "names_participant cats vote_req =
     list_ex (\<lambda>c. c_id c = category_id vote_req \<and>
                  list_ex (\<lambda>p. p_id p = participant_id vote_req) (participants c)) cats"

section \<open>Concrete data\<close>

text \<open>
  A request that carries no proxy header, a vote request, a category with two participants
  and a given \<open>max_votes\<close>, a store with given flags and tables, and a stored vote.
\<close>

definition req_from :: "string \<Rightarrow> request" where
  "req_from ip = \<lparr>headers = Map.empty, client_host = ip\<rparr>"

definition vote_for :: "string \<Rightarrow> string \<Rightarrow> vote_request" where
  "vote_for c p = \<lparr>category_id = c, participant_id = p\<rparr>"

definition two_way :: "string \<Rightarrow> int \<Rightarrow> category" where
  "two_way c m = \<lparr>c_id = c, c_title = ''Award'', max_votes = m,
     participants = [\<lparr>p_id = ''p1'', p_name = ''One''\<rparr>, \<lparr>p_id = ''p2'', p_name = ''Two''\<rparr>]\<rparr>"

definition store :: "bool \<Rightarrow> bool \<Rightarrow> category list \<Rightarrow> vote list \<Rightarrow> json_db" where
  "store active anti cats vs =
     \<lparr>settings_file = Some \<lparr>is_voting_active = active, anti_abuse_enabled = anti\<rparr>,
      categories_file = Some cats, votes_file = Some vs, writable = True, opens = True,
      accesses = []\<rparr>"

definition stored_vote :: "string \<Rightarrow> string \<Rightarrow> string \<Rightarrow> vote" where
  "stored_vote c p ip = \<lparr>category_id = c, participant_id = p, ip_address = ip, timestamp = ''t''\<rparr>"

text \<open>
  Three executions. In \<open>cafe_run\<close> one identity casts three times in a category.
  In \<open>toggle_run\<close> it casts twice and the administrator then saves settings with
  anti-abuse on. In \<open>shrink_run\<close> it casts twice and the administrator then replaces the
  categories by one with \<open>max_votes = 1\<close>.
\<close>

definition cafe_run :: "api_request list" where
  "cafe_run =
     [PostVote (vote_for ''best-cafe'' ''p1'') (req_from ''1.2.3.1'') ''t'',
      PostVote (vote_for ''best-cafe'' ''p2'') (req_from ''1.2.3.1'') ''t'',
      PostVote (vote_for ''best-cafe'' ''p1'') (req_from ''1.2.3.1'') ''t'']"

definition toggle_run :: "api_request list" where
  "toggle_run =
     [PostVote (vote_for ''best-cafe'' ''p1'') (req_from ''1.2.3.1'') ''t'',
      PostVote (vote_for ''best-cafe'' ''p2'') (req_from ''1.2.3.1'') ''t'',
      PostAdminSettings (Some ''key'') \<lparr>is_voting_active = True, anti_abuse_enabled = True\<rparr>]"

definition shrink_run :: "api_request list" where
  "shrink_run =
     [PostVote (vote_for ''best-cafe'' ''p1'') (req_from ''1.2.3.1'') ''t'',
      PostVote (vote_for ''best-cafe'' ''p2'') (req_from ''1.2.3.1'') ''t'',
      PostAdminCategories (Some ''key'') [two_way ''best-cafe'' 1]]"

section \<open>The store\<close>

lemmas store_defs = load_settings_def load_categories_def load_votes_def
  save_settings_def save_categories_def save_votes_def

lemma settings_of_logged: "settings_of (logged a db) = settings_of db"
  by (simp add: settings_of_def logged_def)

lemma categories_of_logged: "categories_of (logged a db) = categories_of db"
  by (simp add: categories_of_def logged_def)

lemma votes_of_logged: "votes_of (logged a db) = votes_of db"
  by (simp add: votes_of_def logged_def)

lemma writable_logged: "writable (logged a db) = writable db"
  by (simp add: logged_def)

lemma opens_logged: "opens (logged a db) = opens db"
  by (simp add: logged_def)

lemmas log_simps = settings_of_logged categories_of_logged votes_of_logged writable_logged
  opens_logged

lemma votes_of_votes_file: "votes_of (db\<lparr>votes_file := Some vs\<rparr>) = vs"
  by (simp add: votes_of_def)

lemma votes_of_no_votes_file: "votes_of (db\<lparr>votes_file := None\<rparr>) = []"
  by (simp add: votes_of_def)

lemma append_vote_eq:
  "append_vote db votes v =
     (if writable db then (Inr Success, logged (Save Votes) (db\<lparr>votes_file := Some (votes @ [v])\<rparr>))
      else (Inl (HTTPException 500 SaveError),
            logged (Save Votes) (if opens db then db\<lparr>votes_file := None\<rparr> else db)))"
  by (simp add: append_vote_def save_votes_def)

section \<open>split and strip\<close>

lemma split_on_nonempty: "split_on sep s \<noteq> []"
  by (induction s) (auto split: list.splits)

lemma hd_split_on: "hd (split_on sep s) = takeWhile (\<lambda>c. c \<noteq> sep) s"
  using split_on_nonempty [of sep] by (induction s) (auto split: list.splits)

lemma rev_dropWhile_split:
  "xs = rev (dropWhile P (rev xs)) @ rev (takeWhile P (rev xs))"
  by (metis rev_append rev_rev_ident takeWhile_dropWhile_id)

text \<open>\<open>strip\<close> cuts white space off both ends and nothing else.\<close>

lemma strip_decomp:
  "\<exists>pre post. s = pre @ strip s @ post \<and> list_all py_isspace pre \<and> list_all py_isspace post"
proof -
  define t where "t = dropWhile py_isspace s"
  have s: "s = takeWhile py_isspace s @ t" by (simp add: t_def)
  have t: "t = strip s @ rev (takeWhile py_isspace (rev t))"
    unfolding strip_def t_def by (rule rev_dropWhile_split)
  have "list_all py_isspace (takeWhile py_isspace s)"
    by (simp add: list_all_iff) (meson set_takeWhileD)
  moreover have "list_all py_isspace (rev (takeWhile py_isspace (rev t)))"
    by (simp add: list_all_iff) (meson set_takeWhileD)
  ultimately show ?thesis using s t by metis
qed

lemma strip_ends:
  assumes "strip s \<noteq> []"
  shows "\<not> py_isspace (hd (strip s)) \<and> \<not> py_isspace (last (strip s))"
proof -
  define t where "t = dropWhile py_isspace s"
  have st: "strip s = rev (dropWhile py_isspace (rev t))" by (simp add: strip_def t_def)
  from assms st have ne: "dropWhile py_isspace (rev t) \<noteq> []" by simp
  then have "\<not> py_isspace (hd (dropWhile py_isspace (rev t)))" by (rule hd_dropWhile)
  then have l: "\<not> py_isspace (last (strip s))" using ne by (simp add: st last_rev)
  have t: "t = strip s @ rev (takeWhile py_isspace (rev t))"
    unfolding st by (rule rev_dropWhile_split)
  with assms have "hd t = hd (strip s)" by (metis hd_append2)
  moreover from t assms have "t \<noteq> []" by auto
  then have "\<not> py_isspace (hd t)" unfolding t_def by (rule hd_dropWhile)
  ultimately show ?thesis using l by simp
qed

section \<open>Dictionaries\<close>

lemma map_of_dict_set: "map_of (dict_set k v d) = (map_of d)(k \<mapsto> v)"
  by (induction d) (auto simp: fun_eq_iff)

lemma find_SomeD: "List.find P xs = Some x \<Longrightarrow> x \<in> set xs \<and> P x"
  by (induction xs) (auto split: if_splits)

lemma find_snoc:
  "List.find P (xs @ [x]) =
     (case List.find P xs of None \<Rightarrow> (if P x then Some x else None) | Some y \<Rightarrow> Some y)"
  by (induction xs) auto

section \<open>The tally\<close>

lemma fold_zero_counts:
  "map_of (fold (\<lambda>p d. dict_set (p_id p) (0::int) d) ps acc) pid =
     (if pid \<in> p_id ` set ps then Some 0 else map_of acc pid)"
  by (induction ps arbitrary: acc) (auto simp: map_of_dict_set)

lemma map_of_zero_counts:
  "map_of (zero_counts ps) pid = (if pid \<in> p_id ` set ps then Some 0 else None)"
  by (simp add: zero_counts_def fold_zero_counts)

lemma fold_init_results:
  "map_of (fold (\<lambda>cat d. dict_set (c_id cat) (zero_counts (participants cat)) d) cats acc) cid =
     (case List.find (\<lambda>c. c_id c = cid) (rev cats) of
        None \<Rightarrow> map_of acc cid
      | Some c \<Rightarrow> Some (zero_counts (participants c)))"
  by (induction cats arbitrary: acc) (auto simp: map_of_dict_set find_snoc split: option.splits)

lemma map_of_init_results:
  "map_of (init_results cats) cid =
     map_option (\<lambda>c. zero_counts (participants c)) (List.find (\<lambda>c. c_id c = cid) (rev cats))"
  by (simp add: init_results_def fold_init_results split: option.splits)

lemma lookup2_init_results:
  "lookup2 (init_results cats) cid pid =
     (case List.find (\<lambda>c. c_id c = cid) (rev cats) of
        None \<Rightarrow> None
      | Some c \<Rightarrow> if pid \<in> p_id ` set (participants c) then Some 0 else None)"
  by (simp add: lookup2_def map_of_init_results map_of_zero_counts split: option.splits)

lemma count_vote_keys: "(map_of (count_vote v d) c = None) = (map_of d c = None)"
  by (auto simp: count_vote_def Let_def map_of_dict_set split: option.splits)

lemma lookup2_count_vote:
  "lookup2 (count_vote v d) c p =
     (if category_id v = c \<and> participant_id v = p then map_option (\<lambda>n. n + 1) (lookup2 d c p)
      else lookup2 d c p)"
  by (auto simp: lookup2_def count_vote_def Let_def map_of_dict_set split: option.splits)

lemma count_vote_stale:
  "lookup2 d (category_id v) (participant_id v) = None \<Longrightarrow> count_vote v d = d"
  by (auto simp: lookup2_def count_vote_def Let_def split: option.splits)

lemma fold_count_vote_keys: "(map_of (fold count_vote votes d) c = None) = (map_of d c = None)"
  by (induction votes arbitrary: d) (simp_all add: count_vote_keys)

lemma lookup2_fold_count_vote:
  "lookup2 (fold count_vote votes d) c p =
     map_option (\<lambda>n. n + int (length (filter (\<lambda>v. category_id v = c \<and> participant_id v = p) votes)))
       (lookup2 d c p)"
proof (induction votes arbitrary: d)
  case Nil
  show ?case by (cases "lookup2 d c p") simp_all
next
  case (Cons v vs)
  show ?case
    by (cases "lookup2 d c p") (simp_all add: Cons.IH lookup2_count_vote)
qed

lemma results_data_keys:
  "(map_of (results_data cats votes) cid = None) = (cid \<notin> c_id ` set cats)"
  by (auto simp: results_data_def fold_count_vote_keys map_of_init_results find_None_iff)

lemma lookup2_results_data:
  "lookup2 (results_data cats votes) cid pid =
     (case List.find (\<lambda>c. c_id c = cid) (rev cats) of
        None \<Rightarrow> None
      | Some c \<Rightarrow>
          if pid \<in> p_id ` set (participants c)
          then Some (int (length (filter (\<lambda>v. category_id v = cid \<and> participant_id v = pid) votes)))
          else None)"
  by (simp add: results_data_def lookup2_fold_count_vote lookup2_init_results split: option.splits)

lemma results_data_snoc: "results_data cats (votes @ [v]) = count_vote v (results_data cats votes)"
  by (simp add: results_data_def)

lemma fst_get_results:
  "fst (get_results db) =
     (if is_voting_active (settings_of db) then Hidden
      else Visible (results_data (categories_of db) (votes_of db)))"
  by (simp add: get_results_def store_defs log_simps)

section \<open>The my-votes view\<close>

lemma map_of_my_votes_step:
  "map_of (my_votes_step ip v acc) cid =
     (if ip_address v = ip \<and> category_id v = cid
      then Some ((case map_of acc cid of None \<Rightarrow> [] | Some l \<Rightarrow> l) @ [participant_id v])
      else map_of acc cid)"
  by (auto simp: my_votes_step_def Let_def map_of_dict_set split: option.splits)

lemma map_of_fold_my_votes:
  "map_of (fold (my_votes_step ip) votes acc) cid =
     (if user_cat_votes ip cid votes = [] then map_of acc cid
      else Some ((case map_of acc cid of None \<Rightarrow> [] | Some l \<Rightarrow> l)
                 @ map participant_id (user_cat_votes ip cid votes)))"
  by (induction votes arbitrary: acc) (auto simp: map_of_my_votes_step user_cat_votes_def)

lemma my_votes_view:
  "map_of (fst (get_my_votes db req)) cid =
     (if user_cat_votes (get_client_ip req) cid (votes_of db) = [] then None
      else Some (map participant_id (user_cat_votes (get_client_ip req) cid (votes_of db))))"
  by (simp add: get_my_votes_def load_votes_def map_of_fold_my_votes)

section \<open>Casting\<close>

lemma cast_vote_success:
  "(fst (cast_vote db vote_req req now) = Inr Success) = (accepts db vote_req req \<and> writable db)"
  by (auto simp: cast_vote_def accepts_def store_defs append_vote_eq log_simps Let_def
      split: option.splits)

text \<open>
  The votes table after a cast: one record more when the cast is accepted and saved, empty
  when the save fails after the open, the same otherwise.
\<close>

lemma cast_vote_votes:
  "votes_of (snd (cast_vote db vote_req req now)) =
     (if accepts db vote_req req
      then (if writable db then votes_of db @ [new_vote vote_req (get_client_ip req) now]
            else if opens db then [] else votes_of db)
      else votes_of db)"
  by (auto simp: cast_vote_def accepts_def store_defs append_vote_eq log_simps Let_def
      votes_of_votes_file votes_of_no_votes_file split: option.splits)

lemma cast_vote_categories: "categories_of (snd (cast_vote db vote_req req now)) = categories_of db"
  by (auto simp: cast_vote_def store_defs append_vote_eq log_simps Let_def categories_of_def
      logged_def split: option.splits)

lemma closed_cast_eq:
  "\<not> is_voting_active (settings_of db) \<Longrightarrow>
     cast_vote db vote_req req now =
       (Inl (HTTPException 400 VotingClosedNow), logged (Load Settings) db)"
  by (simp add: cast_vote_def load_settings_def)

lemma cast_vote_over_quota:
  assumes "is_voting_active (settings_of db)" and "anti_abuse_enabled (settings_of db)"
    and "find_category (categories_of db) (category_id vote_req) = Some c"
    and "max_votes c
           \<le> int (length (user_cat_votes (get_client_ip req) (category_id vote_req) (votes_of db)))"
  shows "cast_vote db vote_req req now =
    (Inl (HTTPException 403 LimitExhausted),
     logged (Load Categories) (logged (Load Votes) (logged (Load Settings) db)))"
  using assms by (simp add: cast_vote_def store_defs log_simps Let_def)

text \<open>The branch under anti-abuse refuses a category that is not in the table.\<close>

lemma cast_vote_unknown_category_anti_abuse:
  assumes "is_voting_active (settings_of db)" and "anti_abuse_enabled (settings_of db)"
    and "find_category (categories_of db) (category_id vote_req) = None"
  shows "cast_vote db vote_req req now =
    (Inl (HTTPException 404 CategoryNotFound),
     logged (Load Categories) (logged (Load Votes) (logged (Load Settings) db)))"
  using assms by (simp add: cast_vote_def store_defs log_simps Let_def)

lemma user_cat_votes_snoc:
  "user_cat_votes ip cid (votes @ [v]) =
     (if ip_address v = ip \<and> category_id v = cid then user_cat_votes ip cid votes @ [v]
      else user_cat_votes ip cid votes)"
  by (simp add: user_cat_votes_def)

lemma cast_count_le:
  assumes "anti_abuse_enabled (settings_of db)"
    and "find_category (categories_of db) cid = Some c"
    and "int (length (user_cat_votes ip cid (votes_of db))) \<le> max_votes c"
  shows "int (length (user_cat_votes ip cid (votes_of (snd (cast_vote db vote_req req now)))))
           \<le> max_votes c"
proof -
  let ?after = "votes_of (snd (cast_vote db vote_req req now))"
  have "?after = votes_of db \<or> ?after = [] \<or>
      (accepts db vote_req req \<and> ?after = votes_of db @ [new_vote vote_req (get_client_ip req) now])"
    by (simp add: cast_vote_votes)
  then consider (same) "?after = votes_of db"
    | (cut) "?after = []"
    | (more) "accepts db vote_req req"
        "?after = votes_of db @ [new_vote vote_req (get_client_ip req) now]"
    by blast
  then show ?thesis
  proof cases
    case same
    then show ?thesis using assms(3) by simp
  next
    case cut
    have "0 \<le> max_votes c" using assms(3) by linarith
    then show ?thesis by (simp add: cut user_cat_votes_def)
  next
    case more
    show ?thesis
    proof (cases "get_client_ip req = ip \<and> category_id vote_req = cid")
      case True
      with more(1) assms(1,2) have "int (length (user_cat_votes ip cid (votes_of db))) < max_votes c"
        by (auto simp: accepts_def)
      with True show ?thesis
        by (simp add: more(2) user_cat_votes_snoc new_vote_def)
    next
      case False
      with assms(3) show ?thesis
        by (auto simp: more(2) user_cat_votes_snoc new_vote_def)
    qed
  qed
qed

section \<open>Resetting\<close>

lemma length_filter_eq_iff: "(length (filter P xs) = length xs) = (\<forall>x\<in>set xs. P x)"
proof
  assume "length (filter P xs) = length xs"
  then show "\<forall>x\<in>set xs. P x"
    using length_filter_less [of _ xs P] by fastforce
next
  assume "\<forall>x\<in>set xs. P x"
  then show "length (filter P xs) = length xs" by simp
qed

lemma reset_skipped:
  assumes "is_voting_active (settings_of db)" and "payload ''category_id'' = Some cid"
    and "cid \<noteq> []" and "user_cat_votes (get_client_ip req) cid (votes_of db) = []"
  shows "reset_my_vote db req payload =
    (Inr Skipped, logged (Load Votes) (logged (Load Settings) db))"
proof -
  obtain k ks where cid: "cid = k # ks" using assms(3) by (cases cid) auto
  have "\<forall>v\<in>set (votes_of db). \<not> (ip_address v = get_client_ip req \<and> category_id v = cid)"
    using assms(4) by (simp add: user_cat_votes_def filter_empty_conv)
  then have "length (filter (\<lambda>v. \<not> (ip_address v = get_client_ip req \<and> category_id v = cid))
      (votes_of db)) = length (votes_of db)"
    by (simp add: length_filter_eq_iff)
  then show ?thesis
    using assms(1,2)
    by (simp add: reset_my_vote_def load_settings_def load_votes_def votes_of_logged cid Let_def)
qed

lemma reset_applied:
  assumes "is_voting_active (settings_of db)" and "payload ''category_id'' = Some cid"
    and "cid \<noteq> []" and "user_cat_votes (get_client_ip req) cid (votes_of db) \<noteq> []"
    and "writable db"
  shows "reset_my_vote db req payload =
    (Inr Success,
     logged (Save Votes) (logged (Load Votes) (logged (Load Settings) db)
       \<lparr>votes_file := Some (filter (\<lambda>v. \<not> (ip_address v = get_client_ip req \<and> category_id v = cid))
                               (votes_of db))\<rparr>))"
proof -
  obtain k ks where cid: "cid = k # ks" using assms(3) by (cases cid) auto
  have "\<not> (\<forall>v\<in>set (votes_of db). \<not> (ip_address v = get_client_ip req \<and> category_id v = cid))"
    using assms(4) by (simp add: user_cat_votes_def filter_empty_conv)
  then have "length (filter (\<lambda>v. \<not> (ip_address v = get_client_ip req \<and> category_id v = cid))
      (votes_of db)) \<noteq> length (votes_of db)"
    by (simp only: length_filter_eq_iff not_False_eq_True)
  then show ?thesis
    using assms(1,2,5)
    by (simp add: reset_my_vote_def load_settings_def load_votes_def save_votes_def votes_of_logged
        writable_logged cid Let_def)
qed

lemma reset_no_category_id:
  assumes "payload ''category_id'' = None \<or> payload ''category_id'' = Some []"
  shows "reset_my_vote db req payload =
    (Inl (HTTPException 400
            (if is_voting_active (settings_of db) then CategoryIdRequired else VotingClosed)),
     logged (Load Settings) db)"
  using assms by (auto simp: reset_my_vote_def load_settings_def)

lemma user_cat_votes_reset:
  "user_cat_votes ip' cid' (filter (\<lambda>v. \<not> (ip_address v = ip \<and> category_id v = cid)) votes) =
     (if ip' = ip \<and> cid' = cid then [] else user_cat_votes ip' cid' votes)"
  by (induction votes) (auto simp: user_cat_votes_def)

lemma filter_no_match:
  "user_cat_votes ip cid votes = [] \<Longrightarrow>
     filter (\<lambda>v. \<not> (ip_address v = ip \<and> category_id v = cid)) votes = votes"
  by (induction votes) (auto simp: user_cat_votes_def split: if_splits)

lemma reset_votes:
  "votes_of (snd (reset_my_vote db req payload)) = votes_of db \<or>
   votes_of (snd (reset_my_vote db req payload)) = [] \<or>
   votes_of (snd (reset_my_vote db req payload)) =
     filter (\<lambda>v. \<not> (ip_address v = get_client_ip req
                    \<and> category_id v = the (payload ''category_id''))) (votes_of db)"
  by (auto simp: reset_my_vote_def store_defs log_simps Let_def votes_of_votes_file
      votes_of_no_votes_file split: option.splits list.splits)

lemma user_cat_votes_filter_le:
  "length (user_cat_votes ip cid (filter P votes)) \<le> length (user_cat_votes ip cid votes)"
  by (induction votes) (auto simp: user_cat_votes_def)

lemma reset_count_le:
  "length (user_cat_votes ip cid (votes_of (snd (reset_my_vote db req payload))))
     \<le> length (user_cat_votes ip cid (votes_of db))"
proof -
  have "user_cat_votes ip cid [] = []" by (simp add: user_cat_votes_def)
  then show ?thesis
    using reset_votes [of db req payload] user_cat_votes_filter_le by fastforce
qed

section \<open>Executions\<close>

lemma votes_of_admin:
  "votes_of (snd (depends_verify_admin secret tok get_admin_data db)) = votes_of db"
  "votes_of (snd (depends_verify_admin secret tok (update_settings s) db)) = votes_of db"
  "votes_of (snd (depends_verify_admin secret tok (update_categories cs) db)) = votes_of db"
  by (simp_all add: depends_verify_admin_def verify_admin_def get_admin_data_def
      update_settings_def update_categories_def store_defs log_simps votes_of_def logged_def)

lemma votes_of_reads:
  "votes_of (snd (get_status db)) = votes_of db"
  "votes_of (snd (get_categories db)) = votes_of db"
  "votes_of (snd (get_my_votes db req)) = votes_of db"
  "votes_of (snd (get_results db)) = votes_of db"
  by (simp_all add: get_status_def get_categories_def get_my_votes_def get_results_def
      store_defs log_simps Let_def)

lemma handle_count_le:
  assumes "anti_abuse_enabled (settings_of db)"
    and "find_category (categories_of db) cid = Some c"
    and "int (length (user_cat_votes ip cid (votes_of db))) \<le> max_votes c"
  shows "int (length (user_cat_votes ip cid (votes_of (handle secret db r)))) \<le> max_votes c"
proof (cases r)
  case (PostVote vote_req req now)
  then show ?thesis using cast_count_le [OF assms] by simp
next
  case (PostVoteReset req payload)
  then show ?thesis using reset_count_le [of ip cid db req payload] assms(3) by simp
qed (simp_all add: votes_of_admin votes_of_reads assms(3))

lemma trace_quota:
  assumes "list_all (\<lambda>t. anti_abuse_enabled (settings_of t) \<and> categories_of t = cats)
             (trace secret db rs)"
    and "find_category cats cid = Some c"
    and "int (length (user_cat_votes ip cid (votes_of db))) \<le> max_votes c"
  shows "list_all (\<lambda>t. int (length (user_cat_votes ip cid (votes_of t))) \<le> max_votes c)
           (trace secret db rs)"
  using assms
proof (induction rs arbitrary: db)
  case Nil
  then show ?case by simp
next
  case (Cons r rs)
  from Cons.prems(1) have here: "anti_abuse_enabled (settings_of db)" "categories_of db = cats"
    by simp_all
  from Cons.prems(1) have rest:
    "list_all (\<lambda>t. anti_abuse_enabled (settings_of t) \<and> categories_of t = cats)
       (trace secret (handle secret db r) rs)"
    by simp
  have "int (length (user_cat_votes ip cid (votes_of (handle secret db r)))) \<le> max_votes c"
    using handle_count_le [of db cid c ip secret r] here Cons.prems(2,3) by simp
  from Cons.IH [OF rest Cons.prems(2) this] Cons.prems(3) show ?case by simp
qed

text \<open>The equations that run the model on concrete data.\<close>

lemmas run_defs = req_from_def vote_for_def two_way_def store_def stored_vote_def
  cast_vote_def reset_my_vote_def get_results_def get_my_votes_def get_status_def
  get_categories_def get_admin_data_def update_settings_def update_categories_def
  depends_verify_admin_def verify_admin_def append_vote_def new_vote_def find_category_def
  user_cat_votes_def get_client_ip_def
  results_data_def init_results_def zero_counts_def count_vote_def my_votes_step_def
  load_settings_def load_categories_def load_votes_def
  save_settings_def save_categories_def save_votes_def
  logged_def settings_of_def categories_of_def votes_of_def Let_def

section \<open>Claims\<close>

subsection \<open>C1: the quota of an identity in a category\<close>

text \<open>
  C1, as stated, fails. The claim is that in every sequential execution, whenever anti-abuse
  is enabled, an identity has at most \<open>max_votes\<close> records in a category. Two executions
  end in a store that has anti-abuse enabled and two records of the identity 1.2.3.1 in a
  category that allows one. In \<open>toggle_run\<close> the store starts with anti-abuse off and
  \<open>max_votes = 1\<close>; the identity casts twice, both accepted, and the administrator then
  switches anti-abuse on. In \<open>shrink_run\<close> anti-abuse is on from the start and
  \<open>max_votes = 2\<close>; the identity casts twice, within its quota, and the administrator
  then replaces the categories table by one with \<open>max_votes = 1\<close>.
\<close>

theorem quota_broken_after_admin_change:
  "anti_abuse_enabled
     (settings_of (last (trace ''key'' (store True False [two_way ''best-cafe'' 1] []) toggle_run))) \<and>
   find_category
     (categories_of (last (trace ''key'' (store True False [two_way ''best-cafe'' 1] []) toggle_run)))
     ''best-cafe'' = Some (two_way ''best-cafe'' 1) \<and>
   length (user_cat_votes ''1.2.3.1'' ''best-cafe''
     (votes_of (last (trace ''key'' (store True False [two_way ''best-cafe'' 1] []) toggle_run)))) = 2 \<and>
   anti_abuse_enabled
     (settings_of (last (trace ''key'' (store True True [two_way ''best-cafe'' 2] []) shrink_run))) \<and>
   find_category
     (categories_of (last (trace ''key'' (store True True [two_way ''best-cafe'' 2] []) shrink_run)))
     ''best-cafe'' = Some (two_way ''best-cafe'' 1) \<and>
   length (user_cat_votes ''1.2.3.1'' ''best-cafe''
     (votes_of (last (trace ''key'' (store True True [two_way ''best-cafe'' 2] []) shrink_run)))) = 2 \<and>
   max_votes (two_way ''best-cafe'' 1) = 1"
  by (simp add: run_defs toggle_run_def shrink_run_def)

text \<open>
  C1, amended. Take any store in which the identity \<open>ip\<close> has at most \<open>max_votes c\<close> records
  in the category \<open>c\<close> that the id \<open>cid\<close> references (the one \<open>cast_vote\<close> finds for it), and
  any sequential execution from it, of any requests, along which anti-abuse stays enabled
  and the categories table stays the same. Then in every store the execution goes through
  \<open>ip\<close> has at most \<open>max_votes c\<close> records in \<open>cid\<close>. And a cast attempt made while voting
  is active and anti-abuse enabled, by an identity that already has \<open>max_votes\<close> records or
  more in the category, is rejected with the 403 limit error after the three loads, with
  no save: the votes file is the same.
\<close>

theorem quota_kept_while_configuration_stable:
  "(list_all (\<lambda>t. anti_abuse_enabled (settings_of t) \<and> categories_of t = categories_of db)
      (trace secret db rs) \<and>
    find_category (categories_of db) cid = Some c \<and>
    int (length (user_cat_votes ip cid (votes_of db))) \<le> max_votes c \<longrightarrow>
    list_all (\<lambda>t. int (length (user_cat_votes ip cid (votes_of t))) \<le> max_votes c)
      (trace secret db rs)) \<and>
   (is_voting_active (settings_of db) \<and> anti_abuse_enabled (settings_of db) \<and>
    find_category (categories_of db) (category_id vote_req) = Some c' \<and>
    max_votes c'
      \<le> int (length (user_cat_votes (get_client_ip req) (category_id vote_req) (votes_of db))) \<longrightarrow>
    cast_vote db vote_req req now =
      (Inl (HTTPException 403 LimitExhausted),
       logged (Load Categories) (logged (Load Votes) (logged (Load Settings) db))) \<and>
    votes_file (snd (cast_vote db vote_req req now)) = votes_file db)"
proof (intro conjI impI)
  assume h: "list_all (\<lambda>t. anti_abuse_enabled (settings_of t) \<and> categories_of t = categories_of db)
      (trace secret db rs) \<and>
    find_category (categories_of db) cid = Some c \<and>
    int (length (user_cat_votes ip cid (votes_of db))) \<le> max_votes c"
  then show "list_all (\<lambda>t. int (length (user_cat_votes ip cid (votes_of t))) \<le> max_votes c)
      (trace secret db rs)"
    using trace_quota [of "categories_of db" secret db rs cid c ip] by blast
next
  assume h: "is_voting_active (settings_of db) \<and> anti_abuse_enabled (settings_of db) \<and>
    find_category (categories_of db) (category_id vote_req) = Some c' \<and>
    max_votes c'
      \<le> int (length (user_cat_votes (get_client_ip req) (category_id vote_req) (votes_of db)))"
  then show eq: "cast_vote db vote_req req now =
      (Inl (HTTPException 403 LimitExhausted),
       logged (Load Categories) (logged (Load Votes) (logged (Load Settings) db)))"
    using cast_vote_over_quota [of db vote_req c' req now] by blast
  show "votes_file (snd (cast_vote db vote_req req now)) = votes_file db"
    by (simp add: eq logged_def)
qed

text \<open>
  The scenario of the specification: 1.2.3.1 casts three times in best-cafe, which allows
  two votes. The count stays within two in every store of the execution, and the third
  attempt gets the 403 error.
\<close>

theorem quota_kept_while_configuration_stable_witness:
  "list_all (\<lambda>t. anti_abuse_enabled (settings_of t)
       \<and> categories_of t = categories_of (store True True [two_way ''best-cafe'' 2] []))
     (trace ''key'' (store True True [two_way ''best-cafe'' 2] []) cafe_run) \<and>
   find_category (categories_of (store True True [two_way ''best-cafe'' 2] [])) ''best-cafe''
     = Some (two_way ''best-cafe'' 2) \<and>
   list_all (\<lambda>t. int (length (user_cat_votes ''1.2.3.1'' ''best-cafe'' (votes_of t)))
       \<le> max_votes (two_way ''best-cafe'' 2))
     (trace ''key'' (store True True [two_way ''best-cafe'' 2] []) cafe_run) \<and>
   length (user_cat_votes ''1.2.3.1'' ''best-cafe''
     (votes_of (last (trace ''key'' (store True True [two_way ''best-cafe'' 2] []) cafe_run)))) = 2 \<and>
   fst (cast_vote
     (store True True [two_way ''best-cafe'' 2]
        [stored_vote ''best-cafe'' ''p1'' ''1.2.3.1'', stored_vote ''best-cafe'' ''p2'' ''1.2.3.1''])
     (vote_for ''best-cafe'' ''p1'') (req_from ''1.2.3.1'') ''t'')
     = Inl (HTTPException 403 LimitExhausted)"
  using quota_kept_while_configuration_stable
    [where secret = "''key''" and db = "store True True [two_way ''best-cafe'' 2] []"
      and rs = cafe_run and cid = "''best-cafe''" and c = "two_way ''best-cafe'' 2"
      and ip = "''1.2.3.1''" and vote_req = "vote_for ''best-cafe'' ''p1''"
      and c' = "two_way ''best-cafe'' 2" and req = "req_from ''1.2.3.1''" and now = "''t''"]
    quota_kept_while_configuration_stable
    [where secret = "''key''" and db = "store True True [two_way ''best-cafe'' 2]
        [stored_vote ''best-cafe'' ''p1'' ''1.2.3.1'', stored_vote ''best-cafe'' ''p2'' ''1.2.3.1'']"
      and rs = "[]" and cid = "''best-cafe''" and c = "two_way ''best-cafe'' 2"
      and ip = "''1.2.3.1''" and vote_req = "vote_for ''best-cafe'' ''p1''"
      and c' = "two_way ''best-cafe'' 2" and req = "req_from ''1.2.3.1''" and now = "''t''"]
  by (simp add: run_defs cafe_run_def)

subsection \<open>C2: a category that does not exist\<close>

text \<open>
  C2 at a failing input. The claim is that a cast for a category id that is not in the
  categories table fails with the not-found error and appends nothing, whatever
  \<open>anti_abuse_enabled\<close> is. \<open>cast_vote\<close> looks the category up inside the anti-abuse branch
  only (\<open>cast_vote_unknown_category_anti_abuse\<close> is that branch). With voting active and
  anti-abuse off, a cast for the id ghost, which no category has, answers success and the
  votes table gains the record; the categories table is never loaded.
\<close>

theorem cast_vote_unknown_category_accepted:
  "find_category (categories_of (store True False [two_way ''best-cafe'' 2] [])) ''ghost'' = None \<and>
   cast_vote (store True False [two_way ''best-cafe'' 2] []) (vote_for ''ghost'' ''p1'')
       (req_from ''1.2.3.1'') ''t''
     = (Inr Success,
        (store True False [two_way ''best-cafe'' 2] [stored_vote ''ghost'' ''p1'' ''1.2.3.1''])
          \<lparr>accesses := [Load Settings, Load Votes, Save Votes]\<rparr>)"
  by (simp add: run_defs)

subsection \<open>C3: casting while voting is closed\<close>

text \<open>
  C3. When \<open>is_voting_active\<close> is false, \<open>cast_vote\<close> fails with the 400 closed-voting
  error for every vote request, request and time. The store is the one before with one
  more entry in its log, the load of the settings: the votes file is the same and there is
  no save.
\<close>

theorem cast_vote_closed:
  "\<not> is_voting_active (settings_of db) \<Longrightarrow>
     cast_vote db vote_req req now =
       (Inl (HTTPException 400 VotingClosedNow), logged (Load Settings) db) \<and>
     votes_file (snd (cast_vote db vote_req req now)) = votes_file db \<and>
     accesses (snd (cast_vote db vote_req req now)) = accesses db @ [Load Settings]"
  by (simp add: closed_cast_eq logged_def)

theorem cast_vote_closed_witness:
  "\<not> is_voting_active (settings_of (store False True [two_way ''best-cafe'' 2] [])) \<and>
   fst (cast_vote (store False True [two_way ''best-cafe'' 2] []) (vote_for ''best-cafe'' ''p1'')
      (req_from ''1.2.3.1'') ''t'') = Inl (HTTPException 400 VotingClosedNow) \<and>
   votes_file (snd (cast_vote (store False True [two_way ''best-cafe'' 2] [])
      (vote_for ''best-cafe'' ''p1'') (req_from ''1.2.3.1'') ''t'')) = Some [] \<and>
   accesses (snd (cast_vote (store False True [two_way ''best-cafe'' 2] [])
      (vote_for ''best-cafe'' ''p1'') (req_from ''1.2.3.1'') ''t'')) = [Load Settings]"
  using cast_vote_closed [where db = "store False True [two_way ''best-cafe'' 2] []"
      and vote_req = "vote_for ''best-cafe'' ''p1''" and req = "req_from ''1.2.3.1''"
      and now = "''t''"]
  by (simp add: store_def settings_of_def logged_def)

subsection \<open>C4: the visibility gate of the results\<close>



subsection \<open>C5: the tally\<close>

text \<open>
  C5. With voting closed, \<open>get_results\<close> answers the visible view of \<open>results_data\<close>. Its
  keys are the ids of the categories. Under a category id, the entry of a participant id
  is there exactly when the category lists the participant, and it is the number of vote
  records with that category id and that participant id, so 0 for a participant without
  votes; a vote whose category id or participant id is not in the tables is counted
  nowhere. Where two categories carry one id, which the data model rules out, the
  participants are those of the last one. For the category c1 with participants p1 and p2
  and the votes (c1, p1, ipA), (c1, p2, ipB), (c1, p1, ipC) the view is c1: p1: 2, p2: 1.
\<close>

theorem results_tally:
  "(\<not> is_voting_active (settings_of db) \<longrightarrow>
      fst (get_results db) = Visible (results_data (categories_of db) (votes_of db))) \<and>
   (map_of (results_data (categories_of db) (votes_of db)) cid = None)
     = (cid \<notin> c_id ` set (categories_of db)) \<and>
   lookup2 (results_data (categories_of db) (votes_of db)) cid pid =
     (case List.find (\<lambda>c. c_id c = cid) (rev (categories_of db)) of
        None \<Rightarrow> None
      | Some c \<Rightarrow>
          if pid \<in> p_id ` set (participants c)
          then Some (int (length (filter (\<lambda>v. category_id v = cid \<and> participant_id v = pid)
                                   (votes_of db))))
          else None) \<and>
   fst (get_results (store False True [two_way ''c1'' 1]
       [stored_vote ''c1'' ''p1'' ''ipA'', stored_vote ''c1'' ''p2'' ''ipB'',
        stored_vote ''c1'' ''p1'' ''ipC'']))
     = Visible [(''c1'', [(''p1'', 2), (''p2'', 1)])]"
proof (intro conjI)
  show "\<not> is_voting_active (settings_of db) \<longrightarrow>
      fst (get_results db) = Visible (results_data (categories_of db) (votes_of db))"
    by (simp add: fst_get_results)
  show "(map_of (results_data (categories_of db) (votes_of db)) cid = None)
     = (cid \<notin> c_id ` set (categories_of db))"
    by (rule results_data_keys)
  show "lookup2 (results_data (categories_of db) (votes_of db)) cid pid =
     (case List.find (\<lambda>c. c_id c = cid) (rev (categories_of db)) of
        None \<Rightarrow> None
      | Some c \<Rightarrow>
          if pid \<in> p_id ` set (participants c)
          then Some (int (length (filter (\<lambda>v. category_id v = cid \<and> participant_id v = pid)
                                   (votes_of db))))
          else None)"
    by (rule lookup2_results_data)
  show "fst (get_results (store False True [two_way ''c1'' 1]
       [stored_vote ''c1'' ''p1'' ''ipA'', stored_vote ''c1'' ''p2'' ''ipB'',
        stored_vote ''c1'' ''p1'' ''ipC'']))
     = Visible [(''c1'', [(''p1'', 2), (''p2'', 1)])]"
    by (simp add: run_defs)
qed

text \<open>
  A store with a vote for a participant that c1 does not list and a vote for a category
  that is not there: neither is counted.
\<close>

theorem results_tally_witness:
  "\<not> is_voting_active (settings_of (store False True [two_way ''c1'' 1]
       [stored_vote ''c1'' ''p1'' ''ipA'', stored_vote ''c1'' ''gone'' ''ipB'',
        stored_vote ''old'' ''p1'' ''ipC''])) \<and>
   fst (get_results (store False True [two_way ''c1'' 1]
       [stored_vote ''c1'' ''p1'' ''ipA'', stored_vote ''c1'' ''gone'' ''ipB'',
        stored_vote ''old'' ''p1'' ''ipC'']))
     = Visible [(''c1'', [(''p1'', 1), (''p2'', 0)])] \<and>
   lookup2 (results_data (categories_of (store False True [two_way ''c1'' 1]
       [stored_vote ''c1'' ''p1'' ''ipA'', stored_vote ''c1'' ''gone'' ''ipB'',
        stored_vote ''old'' ''p1'' ''ipC'']))
     (votes_of (store False True [two_way ''c1'' 1]
       [stored_vote ''c1'' ''p1'' ''ipA'', stored_vote ''c1'' ''gone'' ''ipB'',
        stored_vote ''old'' ''p1'' ''ipC'']))) ''c1'' ''p1'' = Some 1"
  using results_tally [where db = "store False True [two_way ''c1'' 1]
       [stored_vote ''c1'' ''p1'' ''ipA'', stored_vote ''c1'' ''gone'' ''ipB'',
        stored_vote ''old'' ''p1'' ''ipC'']" and cid = "''c1''" and pid = "''p1''"]
  by (simp add: run_defs lookup2_def)

subsection \<open>C6: what a reset removes\<close>

text \<open>
  C6, as stated, fails at the empty category id. \<open>reset_my_vote\<close> treats an empty
  \<open>category_id\<close> like a missing one and raises the 400 error. A vote with the empty
  category id gets into the table: with anti-abuse off \<open>cast_vote\<close> accepts the cast of
  1.2.3.1 for it. The reset of 1.2.3.1 for that category id then answers neither success
  nor skipped, and the record that matches the identity and the category id stays.
\<close>

theorem reset_empty_category_id_rejected:
  "cast_vote (store True False [] []) (vote_for '''' ''p1'') (req_from ''1.2.3.1'') ''t''
     = (Inr Success,
        (store True False [] [stored_vote '''' ''p1'' ''1.2.3.1''])
          \<lparr>accesses := [Load Settings, Load Votes, Save Votes]\<rparr>) \<and>
   reset_my_vote (store True False [] [stored_vote '''' ''p1'' ''1.2.3.1''])
       (req_from ''1.2.3.1'') (map_of [(''category_id'', '''')])
     = (Inl (HTTPException 400 CategoryIdRequired),
        logged (Load Settings) (store True False [] [stored_vote '''' ''p1'' ''1.2.3.1''])) \<and>
   user_cat_votes ''1.2.3.1'' ''''
     (votes_of (snd (reset_my_vote (store True False [] [stored_vote '''' ''p1'' ''1.2.3.1''])
        (req_from ''1.2.3.1'') (map_of [(''category_id'', '''')]))))
     = [stored_vote '''' ''p1'' ''1.2.3.1'']"
  by (simp add: run_defs)

text \<open>
  C6, amended. While voting is active, for every request and every category id that is
  not empty: when no record matches the identity and the category id, the reset answers
  skipped and the store is the one before with the two loads in its log (nothing is
  saved); when a record matches and the store takes the write, it answers success; and,
  the store taking the write, the votes table afterwards is the one before without the
  records that match both the identity and the category id, in the same order, so that for
  every other pair of identity and category id the records are the same, and the pair
  itself has none.
\<close>

theorem reset_exact:
  assumes "is_voting_active (settings_of db)"
    and "payload ''category_id'' = Some cid" and "cid \<noteq> []"
  shows "(user_cat_votes (get_client_ip req) cid (votes_of db) = [] \<longrightarrow>
            reset_my_vote db req payload =
              (Inr Skipped, logged (Load Votes) (logged (Load Settings) db))) \<and>
         (user_cat_votes (get_client_ip req) cid (votes_of db) \<noteq> [] \<and> writable db \<longrightarrow>
            fst (reset_my_vote db req payload) = Inr Success) \<and>
         (writable db \<longrightarrow>
            votes_of (snd (reset_my_vote db req payload)) =
              filter (\<lambda>v. \<not> (ip_address v = get_client_ip req \<and> category_id v = cid)) (votes_of db) \<and>
            user_cat_votes ip' cid' (votes_of (snd (reset_my_vote db req payload))) =
              (if ip' = get_client_ip req \<and> cid' = cid then []
               else user_cat_votes ip' cid' (votes_of db)))"
proof (cases "user_cat_votes (get_client_ip req) cid (votes_of db) = []")
  case True
  have eq: "reset_my_vote db req payload =
      (Inr Skipped, logged (Load Votes) (logged (Load Settings) db))"
    using assms True by (rule reset_skipped)
  have "votes_of (snd (reset_my_vote db req payload)) = votes_of db"
    by (simp add: eq log_simps)
  then have vs: "votes_of (snd (reset_my_vote db req payload)) =
      filter (\<lambda>v. \<not> (ip_address v = get_client_ip req \<and> category_id v = cid)) (votes_of db)"
    by (simp only: filter_no_match [OF True])
  have "user_cat_votes ip' cid' (votes_of (snd (reset_my_vote db req payload))) =
      (if ip' = get_client_ip req \<and> cid' = cid then []
       else user_cat_votes ip' cid' (votes_of db))"
    by (simp only: vs user_cat_votes_reset)
  with True eq vs show ?thesis by blast
next
  case False
  have "writable db \<Longrightarrow> reset_my_vote db req payload =
    (Inr Success,
     logged (Save Votes) (logged (Load Votes) (logged (Load Settings) db)
       \<lparr>votes_file := Some (filter (\<lambda>v. \<not> (ip_address v = get_client_ip req \<and> category_id v = cid))
                               (votes_of db))\<rparr>))"
    using assms False by (rule reset_applied)
  then have ok: "writable db \<Longrightarrow> fst (reset_my_vote db req payload) = Inr Success"
    and vs: "writable db \<Longrightarrow> votes_of (snd (reset_my_vote db req payload)) =
        filter (\<lambda>v. \<not> (ip_address v = get_client_ip req \<and> category_id v = cid)) (votes_of db)"
    by (simp_all add: log_simps votes_of_votes_file)
  have "writable db \<Longrightarrow> user_cat_votes ip' cid' (votes_of (snd (reset_my_vote db req payload))) =
      (if ip' = get_client_ip req \<and> cid' = cid then []
       else user_cat_votes ip' cid' (votes_of db))"
    by (simp only: vs user_cat_votes_reset)
  with False ok vs show ?thesis by blast
qed

text \<open>
  1.2.3.1 resets best-cafe: its vote there goes, its vote in best-park and the vote of
  9.9.9.9 in best-cafe stay. 5.5.5.5, which has no vote, gets skipped.
\<close>

theorem reset_exact_witness:
  "reset_my_vote
     (store True True [two_way ''best-cafe'' 2]
        [stored_vote ''best-cafe'' ''p1'' ''1.2.3.1'', stored_vote ''best-cafe'' ''p2'' ''9.9.9.9'',
         stored_vote ''best-park'' ''p1'' ''1.2.3.1''])
     (req_from ''1.2.3.1'') (map_of [(''category_id'', ''best-cafe'')])
   = (Inr Success,
      (store True True [two_way ''best-cafe'' 2]
        [stored_vote ''best-cafe'' ''p2'' ''9.9.9.9'', stored_vote ''best-park'' ''p1'' ''1.2.3.1''])
        \<lparr>accesses := [Load Settings, Load Votes, Save Votes]\<rparr>) \<and>
   reset_my_vote
     (store True True [two_way ''best-cafe'' 2]
        [stored_vote ''best-cafe'' ''p1'' ''1.2.3.1'', stored_vote ''best-cafe'' ''p2'' ''9.9.9.9'',
         stored_vote ''best-park'' ''p1'' ''1.2.3.1''])
     (req_from ''5.5.5.5'') (map_of [(''category_id'', ''best-cafe'')])
   = (Inr Skipped,
      (store True True [two_way ''best-cafe'' 2]
        [stored_vote ''best-cafe'' ''p1'' ''1.2.3.1'', stored_vote ''best-cafe'' ''p2'' ''9.9.9.9'',
         stored_vote ''best-park'' ''p1'' ''1.2.3.1''])
        \<lparr>accesses := [Load Settings, Load Votes]\<rparr>)"
  using reset_exact
    [where db = "store True True [two_way ''best-cafe'' 2]
        [stored_vote ''best-cafe'' ''p1'' ''1.2.3.1'', stored_vote ''best-cafe'' ''p2'' ''9.9.9.9'',
         stored_vote ''best-park'' ''p1'' ''1.2.3.1'']"
      and payload = "map_of [(''category_id'', ''best-cafe'')]" and cid = "''best-cafe''"
      and req = "req_from ''1.2.3.1''" and ip' = "''1.2.3.1''" and cid' = "''best-park''"]
    reset_exact
    [where db = "store True True [two_way ''best-cafe'' 2]
        [stored_vote ''best-cafe'' ''p1'' ''1.2.3.1'', stored_vote ''best-cafe'' ''p2'' ''9.9.9.9'',
         stored_vote ''best-park'' ''p1'' ''1.2.3.1'']"
      and payload = "map_of [(''category_id'', ''best-cafe'')]" and cid = "''best-cafe''"
      and req = "req_from ''5.5.5.5''" and ip' = "''1.2.3.1''" and cid' = "''best-park''"]
  by (simp add: run_defs)

subsection \<open>C7: the identity of a request\<close>

text \<open>
  C7. \<open>get_client_ip\<close> answers the CF-Connecting-IP header when it is there and not empty;
  otherwise, when the X-Forwarded-For header is there and not empty, its part before the
  first comma with the surrounding white space trimmed; otherwise the host of the peer.
  Trimmed means: the part before the first comma is the answer with white space only before
  it and white space only after it, and the answer, when not empty, neither starts nor ends
  with white space. White space is what \<open>str.isspace\<close> accepts below 256: the code
  points 9 to 13, 28 to 32, 133 and 160.
\<close>

theorem get_client_ip_precedence:
  "(headers req ''CF-Connecting-IP'' = Some v \<and> v \<noteq> [] \<longrightarrow> get_client_ip req = v) \<and>
   ((headers req ''CF-Connecting-IP'' = None \<or> headers req ''CF-Connecting-IP'' = Some []) \<and>
    headers req ''X-Forwarded-For'' = Some f \<and> f \<noteq> [] \<longrightarrow>
      get_client_ip req = strip (takeWhile (\<lambda>c. c \<noteq> CHR '','') f) \<and>
      (\<exists>pre post. takeWhile (\<lambda>c. c \<noteq> CHR '','') f = pre @ get_client_ip req @ post \<and>
         list_all py_isspace pre \<and> list_all py_isspace post) \<and>
      (get_client_ip req \<noteq> [] \<longrightarrow>
         \<not> py_isspace (hd (get_client_ip req)) \<and> \<not> py_isspace (last (get_client_ip req)))) \<and>
   ((headers req ''CF-Connecting-IP'' = None \<or> headers req ''CF-Connecting-IP'' = Some []) \<and>
    (headers req ''X-Forwarded-For'' = None \<or> headers req ''X-Forwarded-For'' = Some []) \<longrightarrow>
      get_client_ip req = client_host req) \<and>
   py_isspace c = ((of_char c :: nat) \<in> {9..13} \<union> {28..32} \<union> {133, 160})"
proof (intro conjI impI)
  assume "headers req ''CF-Connecting-IP'' = Some v \<and> v \<noteq> []"
  then show "get_client_ip req = v"
    by (auto simp: get_client_ip_def split: list.splits)
next
  assume h: "(headers req ''CF-Connecting-IP'' = None \<or> headers req ''CF-Connecting-IP'' = Some []) \<and>
    headers req ''X-Forwarded-For'' = Some f \<and> f \<noteq> []"
  then show eq: "get_client_ip req = strip (takeWhile (\<lambda>c. c \<noteq> CHR '','') f)"
    by (auto simp: get_client_ip_def hd_split_on simp del: split_on.simps
        split: option.splits list.splits)
  show "\<exists>pre post. takeWhile (\<lambda>c. c \<noteq> CHR '','') f = pre @ get_client_ip req @ post \<and>
         list_all py_isspace pre \<and> list_all py_isspace post"
    unfolding eq by (rule strip_decomp)
  assume "get_client_ip req \<noteq> []"
  then show "\<not> py_isspace (hd (get_client_ip req))" and "\<not> py_isspace (last (get_client_ip req))"
    using strip_ends [of "takeWhile (\<lambda>c. c \<noteq> CHR '','') f"] by (simp_all add: eq)
next
  assume "(headers req ''CF-Connecting-IP'' = None \<or> headers req ''CF-Connecting-IP'' = Some []) \<and>
    (headers req ''X-Forwarded-For'' = None \<or> headers req ''X-Forwarded-For'' = Some [])"
  then show "get_client_ip req = client_host req"
    by (auto simp: get_client_ip_def)
next
  show "py_isspace c = ((of_char c :: nat) \<in> {9..13} \<union> {28..32} \<union> {133, 160})"
    by (auto simp: py_isspace_def Let_def)
qed

text \<open>
  Three requests, one per case, and a fourth whose forwarded-for value has a tab and a
  space before the address, a space inside it, and a no-break space, a next-line character
  and a file separator after it: only the white space at the two ends goes.
\<close>

theorem get_client_ip_precedence_witness:
  "get_client_ip \<lparr>headers = map_of [(''CF-Connecting-IP'', ''9.9.9.9''),
       (''X-Forwarded-For'', ''1.2.3.4, 5.6.7.8'')], client_host = ''10.0.0.1''\<rparr> = ''9.9.9.9'' \<and>
   get_client_ip \<lparr>headers = map_of [(''CF-Connecting-IP'', ''''),
       (''X-Forwarded-For'', '' 1.2.3.4 , 5.6.7.8'')], client_host = ''10.0.0.1''\<rparr> = ''1.2.3.4'' \<and>
   get_client_ip \<lparr>headers = map_of [(''X-Forwarded-For'', '''')], client_host = ''10.0.0.1''\<rparr>
     = ''10.0.0.1'' \<and>
   get_client_ip \<lparr>headers = map_of [(''X-Forwarded-For'',
       CHR 0x09 # '' 1.2 3.4'' @ [CHR 0xA0, CHR 0x85, CHR 0x1C] @ '',5.6.7.8'')],
       client_host = ''10.0.0.1''\<rparr> = ''1.2 3.4'' \<and>
   py_isspace (CHR 0x0D) \<and> \<not> py_isspace (CHR 0x0E) \<and> \<not> py_isspace CHR ''1''"
  using get_client_ip_precedence
    [where req = "\<lparr>headers = map_of [(''CF-Connecting-IP'', ''9.9.9.9''),
       (''X-Forwarded-For'', ''1.2.3.4, 5.6.7.8'')], client_host = ''10.0.0.1''\<rparr>"
      and v = "''9.9.9.9''" and f = "''1.2.3.4, 5.6.7.8''"]
    get_client_ip_precedence
    [where req = "\<lparr>headers = map_of [(''CF-Connecting-IP'', ''''),
       (''X-Forwarded-For'', '' 1.2.3.4 , 5.6.7.8'')], client_host = ''10.0.0.1''\<rparr>"
      and v = "''''" and f = "'' 1.2.3.4 , 5.6.7.8''"]
    get_client_ip_precedence
    [where req = "\<lparr>headers = map_of [(''X-Forwarded-For'', '''')], client_host = ''10.0.0.1''\<rparr>"
      and v = "''''" and f = "''''"]
    get_client_ip_precedence
    [where req = "\<lparr>headers = map_of [(''X-Forwarded-For'',
       CHR 0x09 # '' 1.2 3.4'' @ [CHR 0xA0, CHR 0x85, CHR 0x1C] @ '',5.6.7.8'')],
       client_host = ''10.0.0.1''\<rparr>"
      and v = "''''"
      and f = "CHR 0x09 # '' 1.2 3.4'' @ [CHR 0xA0, CHR 0x85, CHR 0x1C] @ '',5.6.7.8''"]
  by (simp add: strip_def py_isspace_def)

subsection \<open>C8: a reset without category id\<close>

text \<open>
  C8, as stated, fails. The claim is that a request that lacks a required field, such as a
  reset whose body has no \<open>category_id\<close>, is rejected before any access to the store.
  \<open>reset_my_vote\<close> loads the settings and checks the voting state first, and looks at the
  payload after that. A reset with an empty body on a fresh store is rejected with the
  400 error, and the log of the store, empty before, holds the load of the settings.
\<close>

theorem reset_loads_settings_before_validation:
  "accesses (store True True [] []) = [] \<and>
   fst (reset_my_vote (store True True [] []) (req_from ''1.2.3.1'') (map_of []))
     = Inl (HTTPException 400 CategoryIdRequired) \<and>
   accesses (snd (reset_my_vote (store True True [] []) (req_from ''1.2.3.1'') (map_of [])))
     = [Load Settings]"
  by (simp add: run_defs)

text \<open>
  C8, amended. A reset whose payload has no \<open>category_id\<close>, or an empty one, is rejected
  with a 400 error after one access to the store, the load of the settings: the error is
  the one for the missing category id while voting is active and the closed-voting one
  otherwise. No other table is loaded, nothing is saved, and the store is the one before
  apart from that entry in its log.
\<close>

theorem reset_without_category_id:
  "payload ''category_id'' = None \<or> payload ''category_id'' = Some [] \<Longrightarrow>
     reset_my_vote db req payload =
       (Inl (HTTPException 400
               (if is_voting_active (settings_of db) then CategoryIdRequired else VotingClosed)),
        logged (Load Settings) db) \<and>
     accesses (snd (reset_my_vote db req payload)) = accesses db @ [Load Settings]"
  by (simp add: reset_no_category_id logged_def)

theorem reset_without_category_id_witness:
  "map_of [(''note'', ''x'')] ''category_id'' = (None :: string option) \<and>
   reset_my_vote (store True True [] [stored_vote ''c1'' ''p1'' ''1.2.3.1''])
       (req_from ''1.2.3.1'') (map_of [(''note'', ''x'')])
     = (Inl (HTTPException 400 CategoryIdRequired),
        (store True True [] [stored_vote ''c1'' ''p1'' ''1.2.3.1''])\<lparr>accesses := [Load Settings]\<rparr>) \<and>
   reset_my_vote (store False True [] [stored_vote ''c1'' ''p1'' ''1.2.3.1''])
       (req_from ''1.2.3.1'') (map_of [(''note'', ''x'')])
     = (Inl (HTTPException 400 VotingClosed),
        (store False True [] [stored_vote ''c1'' ''p1'' ''1.2.3.1''])\<lparr>accesses := [Load Settings]\<rparr>)"
  using reset_without_category_id
    [where payload = "map_of [(''note'', ''x'')]"
      and db = "store True True [] [stored_vote ''c1'' ''p1'' ''1.2.3.1'']"
      and req = "req_from ''1.2.3.1''"]
    reset_without_category_id
    [where payload = "map_of [(''note'', ''x'')]"
      and db = "store False True [] [stored_vote ''c1'' ''p1'' ''1.2.3.1'']"
      and req = "req_from ''1.2.3.1''"]
  by (simp add: store_def settings_of_def logged_def)

subsection \<open>C9: the admin gate\<close>

text \<open>
  C9. \<open>verify_admin\<close> passes exactly when the token header is there and equal to the
  secret. When it is missing or different, each of the three admin routes (data, settings,
  categories) answers the 401 error, whatever the body, and leaves the store as it was,
  log included. When it is equal, each route runs its handler.
\<close>

theorem verify_admin_gate:
  "(verify_admin secret tok = Inr ()) = (tok = Some secret) \<and>
   (tok \<noteq> Some secret \<longrightarrow>
      verify_admin secret tok = Inl (HTTPException 401 AccessDenied) \<and>
      depends_verify_admin secret tok get_admin_data db
        = (Inl (HTTPException 401 AccessDenied), db) \<and>
      depends_verify_admin secret tok (update_settings s) db
        = (Inl (HTTPException 401 AccessDenied), db) \<and>
      depends_verify_admin secret tok (update_categories cs) db
        = (Inl (HTTPException 401 AccessDenied), db)) \<and>
   (tok = Some secret \<longrightarrow>
      depends_verify_admin secret tok get_admin_data db = get_admin_data db \<and>
      depends_verify_admin secret tok (update_settings s) db = update_settings s db \<and>
      depends_verify_admin secret tok (update_categories cs) db = update_categories cs db)"
  by (simp add: verify_admin_def depends_verify_admin_def)

theorem verify_admin_gate_witness:
  "verify_admin ''key'' None = Inl (HTTPException 401 AccessDenied) \<and>
   depends_verify_admin ''key'' (Some ''Key'') (update_categories [two_way ''c1'' 1])
       (store True True [] [])
     = (Inl (HTTPException 401 AccessDenied), store True True [] []) \<and>
   verify_admin ''key'' (Some ''key'') = Inr () \<and>
   depends_verify_admin ''key'' (Some ''key'') (update_categories [two_way ''c1'' 1])
       (store True True [] [])
     = (Inr Updated, (store True True [two_way ''c1'' 1] [])\<lparr>accesses := [Save Categories]\<rparr>)"
  using verify_admin_gate [where secret = "''key''" and tok = "None" and db = "store True True [] []"
      and s = "\<lparr>is_voting_active = True, anti_abuse_enabled = True\<rparr>"
      and cs = "[two_way ''c1'' 1]"]
    verify_admin_gate [where secret = "''key''" and tok = "Some ''Key''" and db = "store True True [] []"
      and s = "\<lparr>is_voting_active = True, anti_abuse_enabled = True\<rparr>"
      and cs = "[two_way ''c1'' 1]"]
    verify_admin_gate [where secret = "''key''" and tok = "Some ''key''" and db = "store True True [] []"
      and s = "\<lparr>is_voting_active = True, anti_abuse_enabled = True\<rparr>"
      and cs = "[two_way ''c1'' 1]"]
  by (simp add: run_defs)

subsection \<open>C10: the participant of a vote is not checked\<close>

text \<open>
  C10. A cast that passes the checks of \<open>cast_vote\<close> (voting active and, under anti-abuse,
  category found and quota not reached) on a store that takes the write is accepted,
  whatever its participant id: the votes table gains exactly the new record at its end,
  the caller has one more record in the category, and the my-votes view of the caller
  lists the participant id last under the category. When no category with the id of the
  request lists the participant, the tally is the same as before the cast.
\<close>

theorem participant_not_validated:
  assumes "accepts db vote_req req" and "writable db"
  shows "fst (cast_vote db vote_req req now) = Inr Success \<and>
         votes_of (snd (cast_vote db vote_req req now))
           = votes_of db @ [new_vote vote_req (get_client_ip req) now] \<and>
         length (user_cat_votes (get_client_ip req) (category_id vote_req)
                   (votes_of (snd (cast_vote db vote_req req now))))
           = Suc (length (user_cat_votes (get_client_ip req) (category_id vote_req) (votes_of db))) \<and>
         map_of (fst (get_my_votes (snd (cast_vote db vote_req req now)) req)) (category_id vote_req)
           = Some (map participant_id
                     (user_cat_votes (get_client_ip req) (category_id vote_req) (votes_of db))
                   @ [participant_id vote_req]) \<and>
         (\<not> names_participant (categories_of db) vote_req \<longrightarrow>
            results_data (categories_of (snd (cast_vote db vote_req req now)))
                (votes_of (snd (cast_vote db vote_req req now)))
              = results_data (categories_of db) (votes_of db))"
proof -
  let ?v = "new_vote vote_req (get_client_ip req) now"
  have ok: "fst (cast_vote db vote_req req now) = Inr Success"
    using assms by (simp add: cast_vote_success)
  have vs: "votes_of (snd (cast_vote db vote_req req now)) = votes_of db @ [?v]"
    using assms by (simp add: cast_vote_votes)
  have mine: "user_cat_votes (get_client_ip req) (category_id vote_req) (votes_of db @ [?v])
      = user_cat_votes (get_client_ip req) (category_id vote_req) (votes_of db) @ [?v]"
    by (simp add: user_cat_votes_snoc new_vote_def)
  have count: "length (user_cat_votes (get_client_ip req) (category_id vote_req)
                   (votes_of (snd (cast_vote db vote_req req now))))
      = Suc (length (user_cat_votes (get_client_ip req) (category_id vote_req) (votes_of db)))"
    by (simp add: vs mine)
  have view: "map_of (fst (get_my_votes (snd (cast_vote db vote_req req now)) req))
        (category_id vote_req)
      = Some (map participant_id
                (user_cat_votes (get_client_ip req) (category_id vote_req) (votes_of db))
              @ [participant_id vote_req])"
    by (simp add: my_votes_view vs mine) (simp add: new_vote_def)
  have tally: "results_data (categories_of (snd (cast_vote db vote_req req now)))
        (votes_of (snd (cast_vote db vote_req req now)))
      = results_data (categories_of db) (votes_of db)"
    if stale: "\<not> names_participant (categories_of db) vote_req"
  proof -
    have "lookup2 (results_data (categories_of db) (votes_of db))
        (category_id ?v) (participant_id ?v) = None"
    proof (cases "List.find (\<lambda>c. c_id c = category_id vote_req) (rev (categories_of db))")
      case None
      then show ?thesis by (simp add: lookup2_results_data new_vote_def)
    next
      case (Some c)
      then have "c \<in> set (categories_of db)" and "c_id c = category_id vote_req"
        using find_SomeD [of "\<lambda>c. c_id c = category_id vote_req" "rev (categories_of db)" c]
        by simp_all
      with stale have "participant_id vote_req \<notin> p_id ` set (participants c)"
        by (force simp: names_participant_def list_ex_iff)
      with Some show ?thesis by (simp add: lookup2_results_data new_vote_def)
    qed
    then have "count_vote ?v (results_data (categories_of db) (votes_of db))
        = results_data (categories_of db) (votes_of db)"
      by (rule count_vote_stale)
    then show ?thesis by (simp add: vs cast_vote_categories results_data_snoc)
  qed
  from ok vs count view tally show ?thesis by blast
qed

text \<open>
  1.2.3.1 votes in best-cafe for nobody, a participant the category does not list: the
  record is stored, counts as one of the two votes of 1.2.3.1, is shown by my-votes, and
  the tally stays at zero for both participants.
\<close>

theorem participant_not_validated_witness:
  "accepts (store True True [two_way ''best-cafe'' 2] []) (vote_for ''best-cafe'' ''nobody'')
     (req_from ''1.2.3.1'') \<and>
   \<not> names_participant (categories_of (store True True [two_way ''best-cafe'' 2] []))
     (vote_for ''best-cafe'' ''nobody'') \<and>
   cast_vote (store True True [two_way ''best-cafe'' 2] []) (vote_for ''best-cafe'' ''nobody'')
       (req_from ''1.2.3.1'') ''t''
     = (Inr Success,
        (store True True [two_way ''best-cafe'' 2] [stored_vote ''best-cafe'' ''nobody'' ''1.2.3.1''])
          \<lparr>accesses := [Load Settings, Load Votes, Load Categories, Save Votes]\<rparr>) \<and>
   fst (get_my_votes
          (store True True [two_way ''best-cafe'' 2] [stored_vote ''best-cafe'' ''nobody'' ''1.2.3.1''])
          (req_from ''1.2.3.1''))
     = [(''best-cafe'', [''nobody''])] \<and>
   results_data [two_way ''best-cafe'' 2] [stored_vote ''best-cafe'' ''nobody'' ''1.2.3.1'']
     = [(''best-cafe'', [(''p1'', 0), (''p2'', 0)])]"
  using participant_not_validated
    [where db = "store True True [two_way ''best-cafe'' 2] []"
      and vote_req = "vote_for ''best-cafe'' ''nobody''"
      and req = "req_from ''1.2.3.1''" and now = "''t''"]
  by (simp add: run_defs accepts_def names_participant_def)

end
